theory Spec2Isabelle
  imports Main "HOL-Library.AList"
begin

section \<open>The quiz server: data\<close>

text \<open>
  The server source holds two copies of the WebSocket quiz server: an annotated one
  (with the \<open>admin-restart\<close> and \<open>return-to-lobby\<close> actions) and a shorter one without
  them. Their helper functions (\<open>currentQuestion\<close>, \<open>calcCounts\<close>, \<open>deriveState\<close>,
  \<open>broadcastState\<close>, \<open>startQuestion\<close>, \<open>revealQuestion\<close>, \<open>nextQuestion\<close>) are the same
  text; the message switch differs, and is modelled once per copy, selected by a
  \<open>variant\<close>.

  Modelling decisions:
  \<^item> the global \<open>session\<close>, the \<open>clients\<close> Map and the frames written to the sockets form
    one explicit \<open>server\<close> state; every function takes it and returns the updated one;
  \<^item> \<open>Date.now()\<close> is a parameter \<open>now\<close> (one clock reading per event);
  \<^item> the constant question bank is a parameter \<open>qs\<close>, and \<open>questions\<close> is the bank of
    the source;
  \<^item> a plain JavaScript object used as a dictionary (\<open>session.answers\<close>,
    \<open>session.scores\<close>) is an association list in insertion order, written with
    \<open>AList.update\<close> (an assignment \<open>obj[k] = v\<close> replaces in place or appends).
    JavaScript enumerates integer-like keys first; no statement below depends on the
    order of the entries;
  \<^item> the \<open>clients\<close> Map is an association list from connection handles (numbers) to
    the client metadata; every registered connection is taken to be open;
  \<^item> a frame that does not parse is dropped before the switch and is no event here; a
    frame that parses to a value without one of the listed types is \<open>Other\<close>; the frame
    \<open>null\<close>, on which reading \<open>data.type\<close> throws, is outside the model.
\<close>

datatype phase = Lobby | Question | Reveal | Ended

datatype variant = ServerA | ServerB

record question =
  qid :: string
  prompt :: string
  options :: "string list"
  correct :: int

definition questions :: "question list" where
  "questions =
    [\<lparr>qid = ''q1'', prompt = ''What is inflation?'',
      options = [''A general rise in prices'', ''A drop in all prices'',
                 ''Only stock prices rising'', ''Interest rates falling''], correct = 0\<rparr>,
     \<lparr>qid = ''q2'', prompt = ''GDP stands for?'',
      options = [''Gross Domestic Product'', ''Global Debt Position'',
                 ''Government Deposit Portfolio'', ''General Demand Price''], correct = 0\<rparr>,
     \<lparr>qid = ''q3'', prompt = ''A budget is balanced when?'',
      options = [''Spending is below revenue'', ''Spending equals revenue'',
                 ''Spending is double revenue'', ''There is no tax collected''], correct = 1\<rparr>,
     \<lparr>qid = ''q4'', prompt = ''A central bank mainly does what?'',
      options = [''Prints textbooks'', ''Manages money supply and interest rates'',
                 ''Sets grocery prices'', ''Runs private banks''], correct = 1\<rparr>,
     \<lparr>qid = ''q5'', prompt = ''If demand rises and supply stays the same, price usually?'',
      options = [''Goes up'', ''Goes down'', ''Stays the same'', ''Becomes zero''], correct = 0\<rparr>,
     \<lparr>qid = ''q6'', prompt = ''Which of these is money?'',
      options = [''Bank deposits'', ''Movie tickets'', ''Coupons'', ''A promise on paper''],
      correct = 0\<rparr>,
     \<lparr>qid = ''q7'', prompt = ''The unemployment rate measures?'',
      options = [''Everyone without a job'', ''People not working and not looking'',
                 ''The share of the labor force looking for work'', ''Only students''],
      correct = 2\<rparr>,
     \<lparr>qid = ''q8'', prompt = ''Trade can make countries better off because of?'',
      options = [''Self-sufficiency'', ''Comparative advantage'', ''Zero imports'',
                 ''Equal wages everywhere''], correct = 1\<rparr>,
     \<lparr>qid = ''q9'', prompt = ''Higher interest rates usually make borrowing?'',
      options = [''Cheaper'', ''More expensive'', ''Free'', ''Impossible''], correct = 1\<rparr>,
     \<lparr>qid = ''q10'', prompt = ''Saving vs investing: which is true?'',
      options = [''Saving never has risk'', ''Investing can pay more but has risk'',
                 ''Both always lose money'', ''Investing has no risk''], correct = 1\<rparr>]"

definition QUESTION_DURATION_MS :: int where
  "QUESTION_DURATION_MS = 15000"

definition ADMIN_PASSWORD :: string where
  "ADMIN_PASSWORD = ''1234''"

record answer =
  optionIndex :: int
  ts :: int

record session =
  phase :: phase
  questionIndex :: int
  endsAt :: "int option"
  answers :: "(string \<times> answer) list"
  scores :: "(string \<times> int) list"

record client =
  clientId :: string
  color :: string
  name :: string

text \<open>The snapshot that \<open>deriveState\<close> builds, field by field (\<open>s\<close>/\<open>v\<close>/\<open>p\<close> prefixes
  keep the field names apart from those of the session, the question and the client).\<close>

record qview =
  vId :: string
  vPrompt :: string
  vOptions :: "string list"
  vCorrect :: "int option"

record player =
  pId :: string
  pName :: string
  pColor :: string

record snapshot =
  sPhase :: phase
  sQuestionIndex :: int
  totalQuestions :: nat
  timeLeft :: int
  sQuestion :: "qview option"
  counts :: "int list"
  totalAnswers :: nat
  sAnswers :: "(string \<times> answer) list"
  sScores :: "(string \<times> int) list"
  youAnswered :: "int option"
  players :: "player list"

datatype packet =
  InitMsg string string string snapshot
| StateMsg snapshot

record server =
  clients :: "(nat \<times> client) list"
  session :: session
  sent :: "(nat \<times> packet) list"

text \<open>\<open>Number(data.optionIndex)\<close>: an integer, or a number that \<open>Number.isInteger\<close>
  rejects (NaN, a fraction, an infinity).\<close>

datatype jsnum = JInt int | JOther

text \<open>A parsed frame. A field read with \<open>typeof x === 'string'\<close> or compared with
  \<open>===\<close> against a string is \<open>Some\<close> of the string, or \<open>None\<close> when it is absent or
  not a string. \<open>Other\<close> is any frame whose \<open>type\<close> the switch does not list.\<close>

datatype msg =
  Resume "string option" "string option" "string option"
| SetName "string option"
| Start
| Answer jsnum
| Next
| AdminRestart "string option"
| ReturnToLobby
| Other

text \<open>The events the process handles, each run to completion: a new connection (with
  the id and colour drawn for it), a frame from a connection, a connection closing, and
  the 500 ms timer.\<close>

datatype event =
  Connection nat string string
| Message nat msg
| Close nat
| Tick

section \<open>JavaScript property reads and strings\<close>

text \<open>
  \<open>session.answers\<close> is created by the literal \<open>{}\<close>, so its prototype is
  \<open>Object.prototype\<close> and a read \<open>session.answers[k]\<close> follows the prototype chain: for
  a key that is not an own property it yields the inherited member when \<open>k\<close> names one,
  and \<open>undefined\<close> otherwise. These are the property names of \<open>Object.prototype\<close>; each
  inherited member is a function or an object, hence truthy.
\<close>

definition objectPrototypeKeys :: "string list" where
  "objectPrototypeKeys =
    [''constructor'', ''__defineGetter__'', ''__defineSetter__'', ''hasOwnProperty'',
     ''__lookupGetter__'', ''__lookupSetter__'', ''isPrototypeOf'', ''propertyIsEnumerable'',
     ''toString'', ''valueOf'', ''__proto__'', ''toLocaleString'']"

definition inherited :: "string \<Rightarrow> bool" where
  "inherited k = (k \<in> set objectPrototypeKeys)"

text \<open>Truthiness of \<open>obj[k]\<close> for a dictionary whose own values are objects.\<close>

definition truthyProp :: "(string \<times> 'a) list \<Rightarrow> string \<Rightarrow> bool" where
  "truthyProp obj k = (map_of obj k \<noteq> None \<or> inherited k)"

text \<open>\<open>session.scores[userId] || 0\<close> on an own numeric property or a missing key. The
  keys it is applied to are the own keys of \<open>session.answers\<close>, which are never inherited
  names (\<open>answers_not_inherited\<close> below), so the inherited reading does not arise.\<close>

definition scoreOrZero :: "(string \<times> int) list \<Rightarrow> string \<Rightarrow> int" where
  "scoreOrZero sc userId = (case map_of sc userId of None \<Rightarrow> 0 | Some n \<Rightarrow> if n = 0 then 0 else n)"

text \<open>Strings are byte strings here and \<open>trim\<close> strips the ASCII white space only,
  where \<open>String.prototype.trim\<close> also strips the other Unicode white space and
  \<open>length\<close> and \<open>slice\<close> count UTF-16 units. The model therefore keeps a name or an id
  in some cases where the source rejects or shortens it, so the runs of the model include
  those of the source; the statements about single handlers hold for any client
  metadata.\<close>

definition isSpace :: "char \<Rightarrow> bool" where
  "isSpace c = (c \<in> set [CHR '' '', CHR 0x09, CHR 0x0A, CHR 0x0B, CHR 0x0C, CHR 0x0D])"

definition trim :: "string \<Rightarrow> string" where
  "trim s = rev (dropWhile isSpace (rev (dropWhile isSpace s)))"

section \<open>The session engine\<close>

definition initialSession :: session where
  "initialSession = \<lparr>phase = Lobby, questionIndex = -1, endsAt = None, answers = [], scores = []\<rparr>"

definition initialServer :: server where
  "initialServer = \<lparr>clients = [], session = initialSession, sent = []\<rparr>"

text \<open>\<open>questions[session.questionIndex]\<close> is \<open>undefined\<close> outside the array.\<close>

definition currentQuestion :: "question list \<Rightarrow> session \<Rightarrow> question option" where
  "currentQuestion qs s =
     (if 0 \<le> questionIndex s \<and> questionIndex s < int (length qs)
      then Some (qs ! nat (questionIndex s)) else None)"

text \<open>One iteration of the \<open>forEach\<close> in \<open>calcCounts\<close>: \<open>counts[optionIndex]\<close> is
  defined exactly for the indices 0 to 3 of the four-element array.\<close>

definition countAnswer :: "int list \<Rightarrow> answer \<Rightarrow> int list" where
  "countAnswer cs a =
     (if 0 \<le> optionIndex a \<and> optionIndex a < int (length cs)
      then cs[nat (optionIndex a) := cs ! nat (optionIndex a) + 1] else cs)"

definition calcCounts :: "session \<Rightarrow> int list" where
  "calcCounts s = foldl countAnswer (replicate 4 0) (map snd (answers s))"

definition deriveState :: "question list \<Rightarrow> int \<Rightarrow> server \<Rightarrow> string \<Rightarrow> snapshot" where
  "deriveState qs now st viewerId =
     (let s = session st;
          question = currentQuestion qs s;
          cnts = calcCounts s;
          tl = (case endsAt s of
                  Some e \<Rightarrow> if phase s = Question \<and> e \<noteq> 0 then max 0 (e - now) else 0
                | None \<Rightarrow> 0)
      in \<lparr>sPhase = phase s,
          sQuestionIndex = questionIndex s,
          totalQuestions = length qs,
          timeLeft = tl,
          sQuestion = (case question of
                         Some q \<Rightarrow> Some \<lparr>vId = qid q, vPrompt = prompt q, vOptions = options q,
                                         vCorrect = (if phase s = Reveal then Some (correct q) else None)\<rparr>
                       | None \<Rightarrow> None),
          counts = cnts,
          totalAnswers = length (map fst (answers s)),
          sAnswers = answers s,
          sScores = scores s,
          youAnswered = (if viewerId \<noteq> [] then map_option optionIndex (map_of (answers s) viewerId)
                         else None),
          players = map (\<lambda>c. \<lparr>pId = clientId c, pName = name c, pColor = color c\<rparr>)
                        (map snd (clients st))\<rparr>)"

definition broadcastState :: "question list \<Rightarrow> int \<Rightarrow> server \<Rightarrow> server" where
  "broadcastState qs now st =
     st\<lparr>sent := sent st @
          map (\<lambda>(ws, meta). (ws, StateMsg (deriveState qs now st (clientId meta)))) (clients st)\<rparr>"

definition startQuestion :: "question list \<Rightarrow> int \<Rightarrow> int \<Rightarrow> server \<Rightarrow> server" where
  "startQuestion qs now index st =
     broadcastState qs now
       (st\<lparr>session := (session st)\<lparr>phase := Question, questionIndex := index, answers := [],
                                   endsAt := Some (now + QUESTION_DURATION_MS)\<rparr>\<rparr>)"

text \<open>The \<open>forEach\<close> over \<open>Object.entries(session.answers)\<close> in \<open>revealQuestion\<close>.\<close>

fun awardPoints :: "question \<Rightarrow> (string \<times> answer) list \<Rightarrow> (string \<times> int) list \<Rightarrow> (string \<times> int) list" where
  "awardPoints q [] sc = sc"
| "awardPoints q ((userId, a) # rest) sc =
     awardPoints q rest
       (if optionIndex a = correct q then AList.update userId (scoreOrZero sc userId + 1) sc else sc)"

definition revealQuestion :: "question list \<Rightarrow> int \<Rightarrow> server \<Rightarrow> server" where
  "revealQuestion qs now st =
     (if phase (session st) \<noteq> Question then st
      else
        let s1 = (session st)\<lparr>phase := Reveal, endsAt := None\<rparr>;
            s2 = (case currentQuestion qs s1 of
                    Some q \<Rightarrow> s1\<lparr>scores := awardPoints q (answers s1) (scores s1)\<rparr>
                  | None \<Rightarrow> s1)
        in broadcastState qs now (st\<lparr>session := s2\<rparr>))"

definition nextQuestion :: "question list \<Rightarrow> int \<Rightarrow> server \<Rightarrow> server" where
  "nextQuestion qs now st =
     (if questionIndex (session st) + 1 < int (length qs)
      then startQuestion qs now (questionIndex (session st) + 1) st
      else broadcastState qs now (st\<lparr>session := (session st)\<lparr>phase := Ended, endsAt := None\<rparr>\<rparr>))"

section \<open>The message handlers\<close>

text \<open>The field updates of \<open>resume\<close> on the client's metadata.\<close>

definition resumeMeta :: "string option \<Rightarrow> string option \<Rightarrow> string option \<Rightarrow> client \<Rightarrow> client" where
  "resumeMeta cid nm col meta =
     (let m1 = (case cid of Some c \<Rightarrow> if length (trim c) > 4 then meta\<lparr>clientId := trim c\<rparr> else meta
                | None \<Rightarrow> meta);
          m2 = (case nm of Some n \<Rightarrow> if trim n \<noteq> [] then m1\<lparr>name := take 24 (trim n)\<rparr> else m1
                | None \<Rightarrow> m1)
      in (case col of Some c \<Rightarrow> if trim c \<noteq> [] then m2\<lparr>color := trim c\<rparr> else m2
          | None \<Rightarrow> m2))"

definition onResume :: "question list \<Rightarrow> int \<Rightarrow> nat \<Rightarrow> client \<Rightarrow> string option \<Rightarrow> string option \<Rightarrow> string option \<Rightarrow> server \<Rightarrow> server" where
  "onResume qs now ws meta cid nm col st =
     broadcastState qs now (st\<lparr>clients := AList.update ws (resumeMeta cid nm col meta) (clients st)\<rparr>)"

definition onSetName :: "question list \<Rightarrow> int \<Rightarrow> nat \<Rightarrow> client \<Rightarrow> string option \<Rightarrow> server \<Rightarrow> server" where
  "onSetName qs now ws meta nm st =
     (case nm of
        Some n \<Rightarrow>
          if trim n \<noteq> []
          then broadcastState qs now
                 (st\<lparr>clients := AList.update ws (meta\<lparr>name := take 24 (trim n)\<rparr>) (clients st)\<rparr>)
          else st
      | None \<Rightarrow> st)"

definition onStart :: "variant \<Rightarrow> question list \<Rightarrow> int \<Rightarrow> client \<Rightarrow> server \<Rightarrow> server" where
  "onStart v qs now meta st =
     (if name meta = [] then st
      else if phase (session st) = Lobby \<or> phase (session st) = Ended
      then (case v of
              ServerA \<Rightarrow> startQuestion qs now 0 (st\<lparr>session := (session st)\<lparr>scores := [], answers := []\<rparr>\<rparr>)
            | ServerB \<Rightarrow> startQuestion qs now 0 (st\<lparr>session := (session st)\<lparr>scores := []\<rparr>\<rparr>))
      else st)"

definition onAnswer :: "question list \<Rightarrow> int \<Rightarrow> client \<Rightarrow> jsnum \<Rightarrow> server \<Rightarrow> server" where
  "onAnswer qs now meta n st =
     (if phase (session st) \<noteq> Question then st
      else if name meta = [] then st
      else case n of
        JOther \<Rightarrow> st
      | JInt oi \<Rightarrow>
          if oi < 0 \<or> oi > 3 then st
          else if \<not> truthyProp (answers (session st)) (clientId meta)
          then broadcastState qs now
                 (st\<lparr>session := (session st)\<lparr>answers :=
                        AList.update (clientId meta) \<lparr>optionIndex = oi, ts = now\<rparr> (answers (session st))\<rparr>\<rparr>)
          else st)"

definition onNext :: "variant \<Rightarrow> question list \<Rightarrow> int \<Rightarrow> server \<Rightarrow> server" where
  "onNext v qs now st =
     (if phase (session st) = Reveal
      then (case v of
              ServerA \<Rightarrow>
                if questionIndex (session st) + 1 \<ge> int (length qs)
                then broadcastState qs now (st\<lparr>session := (session st)\<lparr>phase := Ended, endsAt := None\<rparr>\<rparr>)
                else nextQuestion qs now st
            | ServerB \<Rightarrow> nextQuestion qs now st)
      else st)"

definition onAdminRestart :: "question list \<Rightarrow> int \<Rightarrow> string option \<Rightarrow> server \<Rightarrow> server" where
  "onAdminRestart qs now password st =
     (if password = Some ADMIN_PASSWORD
      then broadcastState qs now
             (st\<lparr>session := (session st)\<lparr>phase := Question, questionIndex := 0,
                                         endsAt := Some (now + QUESTION_DURATION_MS),
                                         answers := [], scores := []\<rparr>\<rparr>)
      else st)"

definition onReturnToLobby :: "question list \<Rightarrow> int \<Rightarrow> server \<Rightarrow> server" where
  "onReturnToLobby qs now st =
     (if phase (session st) = Ended
      then broadcastState qs now
             (st\<lparr>session := (session st)\<lparr>phase := Lobby, questionIndex := -1, endsAt := None,
                                         answers := [], scores := []\<rparr>\<rparr>)
      else st)"

text \<open>The \<open>switch (data.type)\<close> of each copy; \<open>ServerB\<close> has no case for
  \<open>admin-restart\<close> and \<open>return-to-lobby\<close>, which fall to \<open>default\<close>.\<close>

fun onMessage :: "variant \<Rightarrow> question list \<Rightarrow> int \<Rightarrow> nat \<Rightarrow> client \<Rightarrow> msg \<Rightarrow> server \<Rightarrow> server" where
  "onMessage v qs now ws meta (Resume cid nm col) st = onResume qs now ws meta cid nm col st"
| "onMessage v qs now ws meta (SetName nm) st = onSetName qs now ws meta nm st"
| "onMessage v qs now ws meta Start st = onStart v qs now meta st"
| "onMessage v qs now ws meta (Answer n) st = onAnswer qs now meta n st"
| "onMessage v qs now ws meta Next st = onNext v qs now st"
| "onMessage ServerA qs now ws meta (AdminRestart password) st = onAdminRestart qs now password st"
| "onMessage ServerA qs now ws meta ReturnToLobby st = onReturnToLobby qs now st"
| "onMessage v qs now ws meta _ st = st"

text \<open>The timer callback.\<close>

definition onTick :: "question list \<Rightarrow> int \<Rightarrow> server \<Rightarrow> server" where
  "onTick qs now st =
     (case endsAt (session st) of
        Some e \<Rightarrow> if phase (session st) = Question \<and> e \<noteq> 0 \<and> now \<ge> e then revealQuestion qs now st else st
      | None \<Rightarrow> st)"

definition onConnection :: "question list \<Rightarrow> int \<Rightarrow> nat \<Rightarrow> string \<Rightarrow> string \<Rightarrow> server \<Rightarrow> server" where
  "onConnection qs now ws cid col st =
     (let st1 = st\<lparr>clients := AList.update ws \<lparr>clientId = cid, color = col, name = []\<rparr> (clients st)\<rparr>
      in st1\<lparr>sent := sent st1 @ [(ws, InitMsg cid col [] (deriveState qs now st1 cid))]\<rparr>)"

definition onClose :: "question list \<Rightarrow> int \<Rightarrow> nat \<Rightarrow> server \<Rightarrow> server" where
  "onClose qs now ws st = broadcastState qs now (st\<lparr>clients := AList.delete ws (clients st)\<rparr>)"

fun step :: "variant \<Rightarrow> question list \<Rightarrow> server \<Rightarrow> int \<times> event \<Rightarrow> server" where
  "step v qs st (now, Connection ws cid col) = onConnection qs now ws cid col st"
| "step v qs st (now, Message ws m) =
     (case map_of (clients st) ws of
        None \<Rightarrow> st
      | Some meta \<Rightarrow> onMessage v qs now ws meta m st)"
| "step v qs st (now, Close ws) = onClose qs now ws st"
| "step v qs st (now, Tick) = onTick qs now st"

definition run :: "variant \<Rightarrow> question list \<Rightarrow> (int \<times> event) list \<Rightarrow> server" where
  "run v qs evs = foldl (step v qs) initialServer evs"

section \<open>Well-formed sessions, rounds and example states\<close>

text \<open>What every reachable session satisfies: \<open>answers\<close> has one entry per key (it
  is a JavaScript object), no key of it is an inherited property name, every recorded
  option index is one of 0 to 3, and the deadline is set exactly in the question phase.\<close>

definition wfSession :: "session \<Rightarrow> bool" where
  "wfSession s \<longleftrightarrow>
     distinct (map fst (answers s))
     \<and> (\<forall>k \<in> set (map fst (answers s)). \<not> inherited k)
     \<and> (\<forall>a \<in> set (map snd (answers s)). 0 \<le> optionIndex a \<and> optionIndex a \<le> 3)
     \<and> (endsAt s \<noteq> None \<longleftrightarrow> phase s = Question)"

text \<open>One round of a game: some answer frames, the reveal, then a \<open>next\<close> frame.\<close>

definition playRound :: "variant \<Rightarrow> question list \<Rightarrow> server \<Rightarrow> (client \<times> jsnum \<times> int) list \<times> int \<times> int \<Rightarrow> server" where
  "playRound v qs st r =
     (case r of (subs, tReveal, tNext) \<Rightarrow>
        onNext v qs tNext
          (revealQuestion qs tReveal
             (foldl (\<lambda>st (meta, n, t). onAnswer qs t meta n st) st subs)))"

definition playRounds :: "variant \<Rightarrow> question list \<Rightarrow> server \<Rightarrow> ((client \<times> jsnum \<times> int) list \<times> int \<times> int) list \<Rightarrow> server" where
  "playRounds v qs st rs = foldl (playRound v qs) st rs"

text \<open>A short run: a player connects, names herself, starts the quiz and answers the
  first question correctly.\<close>

definition demoEvents :: "(int \<times> event) list" where
  "demoEvents =
     [(0, Connection 1 ''a1f09c3e77b2'' ''red''),
      (2, Message 1 (SetName (Some '' Alice ''))),
      (4, Message 1 Start),
      (1000, Message 1 (Answer (JInt 0)))]"

text \<open>The state that run leads to, in a chosen phase.\<close>

definition exampleServer :: "phase \<Rightarrow> server" where
  "exampleServer ph =
     \<lparr>clients = [(1, \<lparr>clientId = ''a1f09c3e77b2'', color = ''red'', name = ''Alice''\<rparr>)],
      session = \<lparr>phase = ph, questionIndex = 0,
                 endsAt = (if ph = Question then Some 15004 else None),
                 answers = [(''a1f09c3e77b2'', \<lparr>optionIndex = 0, ts = 1000\<rparr>)],
                 scores = []\<rparr>,
      sent = []\<rparr>"

text \<open>A connection that resumes under the id \<open>constructor\<close>, names itself and starts
  the quiz.\<close>

definition prototypeIdEvents :: "(int \<times> event) list" where
  "prototypeIdEvents =
     [(0, Connection 1 ''a1f09c3e77b2'' ''red''),
      (1, Message 1 (Resume (Some ''constructor'') (Some ''Eve'') None)),
      (2, Message 1 Start)]"

text \<open>A run into the second question: both players answer the first question
  correctly and it is revealed; on the second question Alice is right again and Bob is
  wrong.\<close>

definition secondRoundEvents :: "(int \<times> event) list" where
  "secondRoundEvents =
     [(0, Connection 1 ''a1f09c3e77b2'' ''red''),
      (1, Connection 2 ''b2e4d5f6a7c8'' ''blue''),
      (2, Message 1 (SetName (Some ''Alice''))),
      (3, Message 2 (SetName (Some ''Bob''))),
      (4, Message 1 Start),
      (1000, Message 1 (Answer (JInt 0))),
      (2000, Message 2 (Answer (JInt 0))),
      (15004, Tick),
      (16000, Message 1 Next),
      (17000, Message 1 (Answer (JInt 0))),
      (18000, Message 2 (Answer (JInt 3)))]"

text \<open>The snapshot inside a frame, and what it means for a snapshot to withhold the
  correct index before the reveal.\<close>

fun packetState :: "packet \<Rightarrow> snapshot" where
  "packetState (InitMsg cid col nm snap) = snap"
| "packetState (StateMsg snap) = snap"

definition withholdsCorrect :: "snapshot \<Rightarrow> bool" where
  "withholdsCorrect snap =
     (case sQuestion snap of
        None \<Rightarrow> True
      | Some qv \<Rightarrow> (sPhase snap \<noteq> Reveal \<longrightarrow> vCorrect qv = None))"

text \<open>Every frame written so far withholds it.\<close>

definition sentOk :: "server \<Rightarrow> bool" where
  "sentOk st = (\<forall>p \<in> set (sent st). withholdsCorrect (packetState (snd p)))"

section \<open>Basic facts about the helpers\<close>

lemma session_broadcastState [simp]: "session (broadcastState qs now st) = session st"
  by (simp add: broadcastState_def)

lemma clients_broadcastState [simp]: "clients (broadcastState qs now st) = clients st"
  by (simp add: broadcastState_def)

lemma session_startQuestion:
  "session (startQuestion qs now i st) =
     (session st)\<lparr>phase := Question, questionIndex := i, answers := [],
                   endsAt := Some (now + QUESTION_DURATION_MS)\<rparr>"
  by (simp add: startQuestion_def)

lemma clients_startQuestion [simp]: "clients (startQuestion qs now i st) = clients st"
  by (simp add: startQuestion_def)

lemma currentQuestion_hide:
  assumes "map (\<lambda>q. q\<lparr>correct := 0\<rparr>) qs = map (\<lambda>q. q\<lparr>correct := 0\<rparr>) qs'"
  shows "map_option (\<lambda>q. q\<lparr>correct := 0\<rparr>) (currentQuestion qs s) = map_option (\<lambda>q. q\<lparr>correct := 0\<rparr>) (currentQuestion qs' s)"
proof -
  have len: "length qs = length qs'" using assms by (metis length_map)
  show ?thesis
  proof (cases "0 \<le> questionIndex s \<and> questionIndex s < int (length qs)")
    case True
    then have "nat (questionIndex s) < length qs" by linarith
    then have "(map (\<lambda>q. q\<lparr>correct := 0\<rparr>) qs) ! nat (questionIndex s) = (qs ! nat (questionIndex s))\<lparr>correct := 0\<rparr>"
      and "(map (\<lambda>q. q\<lparr>correct := 0\<rparr>) qs') ! nat (questionIndex s) = (qs' ! nat (questionIndex s))\<lparr>correct := 0\<rparr>"
      using len by simp_all
    with assms True len show ?thesis by (simp add: currentQuestion_def)
  next
    case False
    with len show ?thesis by (auto simp add: currentQuestion_def)
  qed
qed

text \<open>Every frame the server ever writes withholds the correct index before the reveal.\<close>

lemma withholds_deriveState: "withholdsCorrect (deriveState qs now st viewerId)"
  by (simp add: withholdsCorrect_def deriveState_def Let_def split: option.splits)

lemma sentOk_broadcastState:
  "sentOk st \<Longrightarrow> sentOk (broadcastState qs now st)"
  by (auto simp add: sentOk_def broadcastState_def withholds_deriveState)

lemma sentOk_session_update [simp]: "sentOk (st\<lparr>session := s\<rparr>) = sentOk st"
  by (simp add: sentOk_def)

lemma sentOk_clients_update [simp]: "sentOk (st\<lparr>clients := c\<rparr>) = sentOk st"
  by (simp add: sentOk_def)

lemma sentOk_startQuestion: "sentOk st \<Longrightarrow> sentOk (startQuestion qs now i st)"
  by (simp add: startQuestion_def sentOk_broadcastState)

lemma sentOk_revealQuestion: "sentOk st \<Longrightarrow> sentOk (revealQuestion qs now st)"
  by (simp add: revealQuestion_def Let_def sentOk_broadcastState)

lemma sentOk_nextQuestion: "sentOk st \<Longrightarrow> sentOk (nextQuestion qs now st)"
  by (simp add: nextQuestion_def sentOk_startQuestion sentOk_broadcastState)

lemma sentOk_onMessage: "sentOk st \<Longrightarrow> sentOk (onMessage v qs now ws meta m st)"
  by (cases m; cases v)
     (simp_all add: onResume_def onSetName_def onStart_def onAnswer_def onNext_def
        onAdminRestart_def onReturnToLobby_def sentOk_broadcastState sentOk_startQuestion
        sentOk_nextQuestion split: option.splits jsnum.splits)

lemma sentOk_step: "sentOk st \<Longrightarrow> sentOk (step v qs st ev)"
proof (cases ev)
  case (Pair now e)
  assume ok: "sentOk st"
  show ?thesis
  proof (cases e)
    case (Connection ws cid col)
    with Pair ok show ?thesis
      by (simp add: onConnection_def Let_def sentOk_def withholds_deriveState)
  next
    case (Message ws m)
    with Pair ok show ?thesis by (simp add: sentOk_onMessage split: option.splits)
  next
    case (Close ws)
    with Pair ok show ?thesis by (simp add: onClose_def sentOk_broadcastState)
  next
    case Tick
    with Pair ok show ?thesis by (simp add: onTick_def sentOk_revealQuestion split: option.splits)
  qed
qed

lemma sentOk_run: "sentOk (run v qs evs)"
proof (induction evs rule: rev_induct)
  case Nil
  then show ?case by (simp add: run_def initialServer_def sentOk_def)
next
  case (snoc ev evs)
  then show ?case by (simp add: run_def sentOk_step)
qed


text \<open>Claim C1. For every viewer id and every server state, the snapshot built by
  \<open>deriveState\<close> carries no correct index in its question while the phase is not
  \<open>reveal\<close>, and carries the current question's correct index when the phase is
  \<open>reveal\<close>. Moreover, outside the reveal phase the whole snapshot is the same for any
  two question banks that differ only in their correct indices, so nothing in the payload
  depends on them; and every frame written in any run of either server copy carries a
  snapshot of this kind.\<close>

theorem deriveState_hides_correct:
  "(phase (session st) \<noteq> Reveal \<longrightarrow>
      (\<forall>qv. sQuestion (deriveState qs now st viewerId) = Some qv \<longrightarrow> vCorrect qv = None))
   \<and> (phase (session st) = Reveal \<longrightarrow>
        map_option vCorrect (sQuestion (deriveState qs now st viewerId))
          = map_option (\<lambda>q. Some (correct q)) (currentQuestion qs (session st)))
   \<and> (phase (session st) \<noteq> Reveal \<and> map (\<lambda>q. q\<lparr>correct := 0\<rparr>) qs = map (\<lambda>q. q\<lparr>correct := 0\<rparr>) qs'
        \<longrightarrow> deriveState qs now st viewerId = deriveState qs' now st viewerId)
   \<and> (\<forall>p \<in> set (sent (run v qs evs)). withholdsCorrect (packetState (snd p)))"
proof (intro conjI impI)
  show "\<forall>p \<in> set (sent (run v qs evs)). withholdsCorrect (packetState (snd p))"
    using sentOk_run [of v qs evs] by (simp add: sentOk_def)
next
  assume "phase (session st) \<noteq> Reveal"
  then show "\<forall>qv. sQuestion (deriveState qs now st viewerId) = Some qv \<longrightarrow> vCorrect qv = None"
    by (auto simp add: deriveState_def Let_def split: option.splits)
next
  assume "phase (session st) = Reveal"
  then show "map_option vCorrect (sQuestion (deriveState qs now st viewerId))
          = map_option (\<lambda>q. Some (correct q)) (currentQuestion qs (session st))"
    by (auto simp add: deriveState_def Let_def split: option.splits)
next
  assume a: "phase (session st) \<noteq> Reveal \<and> map (\<lambda>q. q\<lparr>correct := 0\<rparr>) qs = map (\<lambda>q. q\<lparr>correct := 0\<rparr>) qs'"
  then have len: "length qs = length qs'" by (metis length_map)
  from a have h: "map_option (\<lambda>q. q\<lparr>correct := 0\<rparr>) (currentQuestion qs (session st))
      = map_option (\<lambda>q. q\<lparr>correct := 0\<rparr>) (currentQuestion qs' (session st))"
    using currentQuestion_hide by blast
  show "deriveState qs now st viewerId = deriveState qs' now st viewerId"
  proof (cases "currentQuestion qs (session st)")
    case None
    with h have "currentQuestion qs' (session st) = None" by simp
    with None len show ?thesis by (simp add: deriveState_def Let_def)
  next
    case (Some q)
    with h obtain q' where q': "currentQuestion qs' (session st) = Some q'" and e: "q\<lparr>correct := 0\<rparr> = q'\<lparr>correct := 0\<rparr>"
      by (cases "currentQuestion qs' (session st)") auto
    from e have "qid q = qid q'" "prompt q = prompt q'" "options q = options q'"
      by (metis question.select_convs(1) question.surjective question.update_convs(4),
          metis question.select_convs(2) question.surjective question.update_convs(4),
          metis question.select_convs(3) question.surjective question.update_convs(4))
    with Some q' a len show ?thesis by (simp add: deriveState_def Let_def)
  qed
qed

lemma onStart_session:
  "session (onStart v qs now meta st) =
     (if name meta \<noteq> [] \<and> (phase (session st) = Lobby \<or> phase (session st) = Ended)
      then \<lparr>phase = Question, questionIndex = 0, endsAt = Some (now + 15000), answers = [], scores = []\<rparr>
      else session st)"
  by (cases v) (simp_all add: onStart_def session_startQuestion QUESTION_DURATION_MS_def)

text \<open>Claim C4. In both copies of the server a \<open>start\<close> frame takes effect exactly when
  the actor's name is non-empty and the phase is \<open>lobby\<close> or \<open>ended\<close>: the session
  becomes phase \<open>question\<close>, question 0, empty scores and answers, deadline
  \<open>now + 15000\<close>; otherwise the server state is unchanged.\<close>

theorem start_accepted_iff:
  "session (onMessage v qs now ws meta Start st) =
     (if name meta \<noteq> [] \<and> (phase (session st) = Lobby \<or> phase (session st) = Ended)
      then \<lparr>phase = Question, questionIndex = 0, endsAt = Some (now + 15000),
            answers = [], scores = []\<rparr>
      else session st)
   \<and> (\<not> (name meta \<noteq> [] \<and> (phase (session st) = Lobby \<or> phase (session st) = Ended))
        \<longrightarrow> onMessage v qs now ws meta Start st = st)"
  by (auto simp add: onStart_session) (auto simp add: onStart_def)

text \<open>Claim C5. An \<open>admin-restart\<close> frame whose password is the configured passphrase
  puts the session, from any phase, into phase \<open>question\<close> at question 0 with empty
  scores and answers and deadline \<open>now + 15000\<close>. With any other password the whole
  server state is unchanged, the frames sent included, so the actor receives nothing. The
  shorter copy of the server has no passphrase and ignores the frame.\<close>

theorem admin_restart_gate:
  "(password = Some ADMIN_PASSWORD \<longrightarrow>
      session (onMessage ServerA qs now ws meta (AdminRestart password) st) =
        \<lparr>phase = Question, questionIndex = 0, endsAt = Some (now + 15000), answers = [], scores = []\<rparr>)
   \<and> (password \<noteq> Some ADMIN_PASSWORD \<longrightarrow>
        onMessage ServerA qs now ws meta (AdminRestart password) st = st)
   \<and> onMessage ServerB qs now ws meta (AdminRestart password) st = st"
  by (simp add: onAdminRestart_def QUESTION_DURATION_MS_def)

lemma revealQuestion_noop: "phase (session st) \<noteq> Question \<Longrightarrow> revealQuestion qs now st = st"
  by (simp add: revealQuestion_def)

lemma phase_revealQuestion: "phase (session (revealQuestion qs now st)) \<noteq> Question"
  by (simp add: revealQuestion_def Let_def split: option.splits)

lemma onTick_cases: "onTick qs t st = st \<or> onTick qs t st = revealQuestion qs t st"
  by (simp add: onTick_def split: option.splits)

lemma onTick_noop: "phase (session st) \<noteq> Question \<Longrightarrow> onTick qs t st = st"
  by (simp add: onTick_def split: option.splits)

lemma ticks_noop:
  "phase (session st) \<noteq> Question \<Longrightarrow> foldl (\<lambda>st t. onTick qs t st) st ticks = st"
  by (induction ticks) (simp_all add: onTick_noop)

lemma ticks_cases:
  "foldl (\<lambda>st t. onTick qs t st) st ticks = st
   \<or> (\<exists>t \<in> set ticks. foldl (\<lambda>st t. onTick qs t st) st ticks = revealQuestion qs t st)"
proof (induction ticks arbitrary: st)
  case Nil
  then show ?case by simp
next
  case (Cons t ticks)
  from onTick_cases [of qs t st] show ?case
  proof
    assume "onTick qs t st = st"
    with Cons.IH [of st] show ?thesis by auto
  next
    assume "onTick qs t st = revealQuestion qs t st"
    then show ?thesis by (simp add: ticks_noop phase_revealQuestion)
  qed
qed

text \<open>Claim C9. \<open>revealQuestion\<close> changes nothing outside the question phase, hence is
  idempotent; and any sequence of timer ticks either leaves the state alone or amounts to
  a single \<open>revealQuestion\<close>, so the scores of a question accrue at most once.\<close>

theorem reveal_idempotent:
  "(phase (session st) \<noteq> Question \<longrightarrow> revealQuestion qs now st = st)
   \<and> revealQuestion qs now' (revealQuestion qs now st) = revealQuestion qs now st
   \<and> (foldl (\<lambda>st t. onTick qs t st) st ticks = st
        \<or> (\<exists>t \<in> set ticks. foldl (\<lambda>st t. onTick qs t st) st ticks = revealQuestion qs t st))"
  using ticks_cases [of qs st ticks]
  by (simp add: revealQuestion_noop phase_revealQuestion)

section \<open>Invariants of the reachable states\<close>

lemma wf_initial: "wfSession initialSession"
  by (simp add: wfSession_def initialSession_def)

lemma set_snd_update:
  "set (map snd (AList.update k v al)) \<subseteq> insert v (set (map snd al))"
  by (induction al) auto

lemma wf_startQuestion: "wfSession (session (startQuestion qs now i st))"
  by (simp add: session_startQuestion wfSession_def)

lemma wf_onStart: "wfSession (session st) \<Longrightarrow> wfSession (session (onStart v qs now meta st))"
  by (cases v) (simp_all add: onStart_def wf_startQuestion)

lemma answers_revealQuestion [simp]:
  "answers (session (revealQuestion qs now st)) = answers (session st)"
  by (simp add: revealQuestion_def Let_def split: option.splits)

lemma wf_revealQuestion:
  "wfSession (session st) \<Longrightarrow> wfSession (session (revealQuestion qs now st))"
  by (auto simp add: revealQuestion_def Let_def wfSession_def split: option.splits)

lemma wf_onTick: "wfSession (session st) \<Longrightarrow> wfSession (session (onTick qs now st))"
  by (simp add: onTick_def wf_revealQuestion split: option.splits)

lemma wf_nextQuestion:
  "wfSession (session st) \<Longrightarrow> wfSession (session (nextQuestion qs now st))"
  by (simp add: nextQuestion_def wf_startQuestion) (simp add: wfSession_def)

lemma wf_onNext: "wfSession (session st) \<Longrightarrow> wfSession (session (onNext v qs now st))"
  by (cases v) (simp_all add: onNext_def wf_nextQuestion, simp add: wfSession_def)

lemma wf_onAnswer:
  assumes "wfSession (session st)"
  shows "wfSession (session (onAnswer qs now meta n st))"
proof (cases "onAnswer qs now meta n st = st")
  case True
  with assms show ?thesis by simp
next
  case False
  then obtain oi where n: "n = JInt oi" and rng: "0 \<le> oi" "oi \<le> 3"
    and fresh: "\<not> truthyProp (answers (session st)) (clientId meta)"
    and ph: "phase (session st) = Question"
    by (auto simp add: onAnswer_def split: if_splits jsnum.splits)
  let ?a = "\<lparr>optionIndex = oi, ts = now\<rparr>"
  let ?al = "AList.update (clientId meta) ?a (answers (session st))"
  from n rng fresh ph
  have s: "session (onAnswer qs now meta n st) = (session st)\<lparr>answers := ?al\<rparr>"
    using False by (auto simp add: onAnswer_def split: if_splits)
  from assms have "distinct (map fst ?al)"
    by (simp add: wfSession_def distinct_update)
  moreover from assms fresh have "\<forall>k \<in> set (map fst ?al). \<not> inherited k"
    using dom_update [of "clientId meta" ?a "answers (session st)"]
    by (auto simp add: wfSession_def truthyProp_def)
  moreover have "\<forall>a \<in> set (map snd ?al). 0 \<le> optionIndex a \<and> optionIndex a \<le> 3"
  proof
    fix a
    assume "a \<in> set (map snd ?al)"
    then have "a = ?a \<or> a \<in> set (map snd (answers (session st)))"
      using set_snd_update [of "clientId meta" ?a "answers (session st)"] by blast
    then show "0 \<le> optionIndex a \<and> optionIndex a \<le> 3"
    proof
      assume "a = ?a"
      with rng show ?thesis by simp
    next
      assume "a \<in> set (map snd (answers (session st)))"
      with assms show ?thesis unfolding wfSession_def by blast
    qed
  qed
  ultimately show ?thesis using assms s by (simp add: wfSession_def)
qed

lemma wf_onMessage:
  "wfSession (session st) \<Longrightarrow> wfSession (session (onMessage v qs now ws meta m st))"
proof (cases m)
  case (AdminRestart pw)
  assume "wfSession (session st)"
  with AdminRestart show ?thesis
    by (cases v) (simp_all add: onAdminRestart_def wfSession_def)
next
  case ReturnToLobby
  assume "wfSession (session st)"
  with ReturnToLobby show ?thesis
    by (cases v) (simp_all add: onReturnToLobby_def wfSession_def)
qed (simp_all add: onResume_def onSetName_def wf_onStart wf_onAnswer wf_onNext split: option.splits)

lemma wf_step: "wfSession (session st) \<Longrightarrow> wfSession (session (step v qs st ev))"
proof (cases ev)
  case (Pair now e)
  assume "wfSession (session st)"
  with Pair show ?thesis
    by (cases e) (simp_all add: onConnection_def Let_def onClose_def wf_onTick wf_onMessage split: option.splits)
qed

lemma wf_run: "wfSession (session (run v qs evs))"
proof (induction evs rule: rev_induct)
  case Nil
  then show ?case by (simp add: run_def initialServer_def wf_initial)
next
  case (snoc ev evs)
  then show ?case by (simp add: run_def wf_step)
qed

text \<open>Claim C7. In every state reached from the initial lobby by any sequence of
  connections, frames, disconnections and timer ticks, in either copy of the server, the
  deadline is set if and only if the phase is \<open>question\<close>.\<close>

theorem deadline_iff_question:
  "endsAt (session (run v qs evs)) \<noteq> None \<longleftrightarrow> phase (session (run v qs evs)) = Question"
  using wf_run [of v qs evs] by (simp add: wfSession_def)

section \<open>Answer tallies and scoring\<close>

lemma length_countAnswer [simp]: "length (countAnswer cs a) = length cs"
  by (simp add: countAnswer_def)

lemma length_foldl_countAnswer [simp]: "length (foldl countAnswer cs as) = length cs"
  by (induction as arbitrary: cs) simp_all

lemma nonneg_countAnswer:
  assumes nn: "\<forall>c \<in> set cs. 0 \<le> c"
  shows "\<forall>c \<in> set (countAnswer cs a). 0 \<le> c"
proof (cases "0 \<le> optionIndex a \<and> optionIndex a < int (length cs)")
  case True
  let ?i = "nat (optionIndex a)"
  from True have i: "?i < length cs" by linarith
  with nn have "0 \<le> cs ! ?i" by simp
  then have "0 \<le> cs ! ?i + 1" by simp
  with nn have "\<forall>c \<in> insert (cs ! ?i + 1) (set cs). 0 \<le> c" by simp
  moreover have "set (cs[?i := cs ! ?i + 1]) \<subseteq> insert (cs ! ?i + 1) (set cs)"
    by (rule set_update_subset_insert)
  moreover from True have "countAnswer cs a = cs[?i := cs ! ?i + 1]"
    by (simp add: countAnswer_def)
  ultimately show ?thesis by (metis subsetD)
next
  case False
  then have "countAnswer cs a = cs" unfolding countAnswer_def by (rule if_not_P)
  with nn show ?thesis by simp
qed

lemma nonneg_foldl_countAnswer:
  "\<forall>c \<in> set cs. 0 \<le> c \<Longrightarrow> \<forall>c \<in> set (foldl countAnswer cs as). 0 \<le> c"
proof (induction as arbitrary: cs)
  case Nil
  then show ?case by simp
next
  case (Cons a as)
  from Cons.prems have "\<forall>c \<in> set (countAnswer cs a). 0 \<le> c" by (rule nonneg_countAnswer)
  then show ?case using Cons.IH by simp
qed

lemma sum_list_bump: "i < length cs \<Longrightarrow> sum_list (cs[i := cs ! i + 1]) = sum_list cs + (1::int)"
proof (induction cs arbitrary: i)
  case Nil
  then show ?case by simp
next
  case (Cons c cs)
  then show ?case by (cases i) simp_all
qed

lemma sum_countAnswer:
  "0 \<le> optionIndex a \<Longrightarrow> optionIndex a < int (length cs) \<Longrightarrow>
     sum_list (countAnswer cs a) = sum_list cs + 1"
proof -
  assume "0 \<le> optionIndex a" "optionIndex a < int (length cs)"
  moreover from this have "nat (optionIndex a) < length cs" by linarith
  ultimately show ?thesis by (simp add: countAnswer_def sum_list_bump)
qed

lemma sum_foldl_countAnswer:
  "\<forall>a \<in> set as. 0 \<le> optionIndex a \<and> optionIndex a < int (length cs) \<Longrightarrow>
     sum_list (foldl countAnswer cs as) = sum_list cs + int (length as)"
proof (induction as arbitrary: cs)
  case Nil
  then show ?case by simp
next
  case (Cons a as)
  from Cons.prems have "sum_list (countAnswer cs a) = sum_list cs + 1"
    by (simp add: sum_countAnswer)
  moreover from Cons.prems
  have "sum_list (foldl countAnswer (countAnswer cs a) as) = sum_list (countAnswer cs a) + int (length as)"
    by (intro Cons.IH) simp
  ultimately show ?case by simp
qed

lemma replicate4: "replicate 4 (0::int) = [0, 0, 0, 0]"
  by (simp add: numeral_eq_Suc)

lemma sum_calcCounts:
  assumes "\<forall>a \<in> set (map snd (answers s)). 0 \<le> optionIndex a \<and> optionIndex a \<le> 3"
  shows "sum_list (calcCounts s) = int (length (answers s))"
proof -
  from assms have "\<forall>a \<in> set (map snd (answers s)). 0 \<le> optionIndex a \<and> optionIndex a < int (length (replicate 4 (0::int)))"
    by auto
  then have "sum_list (calcCounts s) = sum_list (replicate 4 (0::int)) + int (length (map snd (answers s)))"
    unfolding calcCounts_def by (rule sum_foldl_countAnswer)
  then show ?thesis by (simp add: replicate4)
qed

lemma counts_deriveState [simp]: "counts (deriveState qs now st v) = calcCounts (session st)"
  by (simp add: deriveState_def Let_def)

lemma totalAnswers_deriveState [simp]:
  "totalAnswers (deriveState qs now st v) = length (answers (session st))"
  by (simp add: deriveState_def Let_def)

text \<open>Claim C10. In every snapshot \<open>counts\<close> has exactly four entries, none negative.
  When every recorded option index is an integer from 0 to 3, as it is in every reachable
  state, the four counts add up to \<open>totalAnswers\<close>, which is the number of identities
  in the answers map.\<close>

theorem counts_sum_to_total:
  "length (counts (deriveState qs now st viewerId)) = 4
   \<and> (\<forall>c \<in> set (counts (deriveState qs now st viewerId)). 0 \<le> c)
   \<and> ((\<forall>a \<in> set (map snd (answers (session st))). 0 \<le> optionIndex a \<and> optionIndex a \<le> 3) \<longrightarrow>
        sum_list (counts (deriveState qs now st viewerId))
          = int (totalAnswers (deriveState qs now st viewerId)))
   \<and> (\<forall>a \<in> set (map snd (answers (session (run v qs evs)))). 0 \<le> optionIndex a \<and> optionIndex a \<le> 3)
   \<and> sum_list (counts (deriveState qs now (run v qs evs) viewerId))
        = int (totalAnswers (deriveState qs now (run v qs evs) viewerId))
   \<and> totalAnswers (deriveState qs now (run v qs evs) viewerId)
        = card (fst ` set (answers (session (run v qs evs))))"
proof (intro conjI impI)
  show "length (counts (deriveState qs now st viewerId)) = 4"
    by (simp add: calcCounts_def)
  show "\<forall>c \<in> set (counts (deriveState qs now st viewerId)). 0 \<le> c"
    using nonneg_foldl_countAnswer [of "replicate 4 0" "map snd (answers (session st))"]
    by (simp add: calcCounts_def)
  show "sum_list (counts (deriveState qs now st viewerId))
          = int (totalAnswers (deriveState qs now st viewerId))"
    if "\<forall>a \<in> set (map snd (answers (session st))). 0 \<le> optionIndex a \<and> optionIndex a \<le> 3"
    using that by (simp add: sum_calcCounts)
  have wf: "wfSession (session (run v qs evs))" by (rule wf_run)
  then show r: "\<forall>a \<in> set (map snd (answers (session (run v qs evs)))). 0 \<le> optionIndex a \<and> optionIndex a \<le> 3"
    unfolding wfSession_def by blast
  then show "sum_list (counts (deriveState qs now (run v qs evs) viewerId))
        = int (totalAnswers (deriveState qs now (run v qs evs) viewerId))"
    by (simp add: sum_calcCounts)
  from wf have "distinct (map fst (answers (session (run v qs evs))))"
    unfolding wfSession_def by blast
  then have "card (set (map fst (answers (session (run v qs evs))))) = length (map fst (answers (session (run v qs evs))))"
    by (rule distinct_card)
  then show "totalAnswers (deriveState qs now (run v qs evs) viewerId)
        = card (fst ` set (answers (session (run v qs evs))))"
    by simp
qed

lemma map_of_awardPoints:
  "distinct (map fst as) \<Longrightarrow>
   map_of (awardPoints q as sc) uid =
     (case map_of as uid of
        Some a \<Rightarrow> if optionIndex a = correct q then Some (scoreOrZero sc uid + 1) else map_of sc uid
      | None \<Rightarrow> map_of sc uid)"
proof (induction as arbitrary: sc)
  case Nil
  then show ?case by simp
next
  case (Cons p as)
  obtain userId a where p: "p = (userId, a)" by (cases p)
  define sc' where
    "sc' = (if optionIndex a = correct q then AList.update userId (scoreOrZero sc userId + 1) sc else sc)"
  from Cons.prems p have d: "distinct (map fst as)" and nin: "userId \<notin> fst ` set as" by auto
  have step: "map_of (awardPoints q (p # as) sc) uid = map_of (awardPoints q as sc') uid"
    using p by (simp add: sc'_def)
  note ih = Cons.IH [OF d, of sc']
  show ?case
  proof (cases "uid = userId")
    case True
    with nin have none: "map_of as uid = None" by (simp add: map_of_eq_None_iff)
    have "map_of sc' uid = (if optionIndex a = correct q then Some (scoreOrZero sc uid + 1) else map_of sc uid)"
      using True by (simp add: sc'_def update_conv')
    with step ih none True p show ?thesis by simp
  next
    case False
    then have same: "map_of sc' uid = map_of sc uid" by (simp add: sc'_def update_conv')
    then have "scoreOrZero sc' uid = scoreOrZero sc uid" by (simp add: scoreOrZero_def)
    with step ih False p same show ?thesis by (simp split: option.split)
  qed
qed

text \<open>\<open>scores[userId] || 0\<close> is the recorded score, or 0 when there is none.\<close>

lemma scoreOrZero_map_of:
  "scoreOrZero sc userId = (case map_of sc userId of None \<Rightarrow> 0 | Some n \<Rightarrow> n)"
  by (simp add: scoreOrZero_def split: option.splits)

text \<open>Claim C3. When \<open>revealQuestion\<close> runs in the question phase of a reachable state,
  an identity whose recorded answer is the current question's correct index gets its
  recorded score (0 when it has none yet) plus exactly 1, independently of the time of
  the answer, and the score entry of every other identity is unchanged.\<close>

theorem reveal_scores:
  assumes "st = run v qs evs"
    and "phase (session st) = Question"
    and "currentQuestion qs (session st) = Some q"
  shows "phase (session (revealQuestion qs now st)) = Reveal
    \<and> map_of (scores (session (revealQuestion qs now st))) uid =
      (case map_of (answers (session st)) uid of
         Some a \<Rightarrow> if optionIndex a = correct q
                   then Some ((case map_of (scores (session st)) uid of
                                 None \<Rightarrow> 0 | Some n \<Rightarrow> n) + 1)
                   else map_of (scores (session st)) uid
       | None \<Rightarrow> map_of (scores (session st)) uid)"
proof -
  from assms(1) have "wfSession (session st)" by (simp add: wf_run)
  then have d: "distinct (map fst (answers (session st)))" unfolding wfSession_def by blast
  from assms(3) have cq: "currentQuestion qs ((session st)\<lparr>phase := Reveal, endsAt := None\<rparr>) = Some q"
    by (simp add: currentQuestion_def split: if_splits)
  from assms(2) cq
  have "session (revealQuestion qs now st) =
      (session st)\<lparr>phase := Reveal, endsAt := None,
                    scores := awardPoints q (answers (session st)) (scores (session st))\<rparr>"
    by (simp add: revealQuestion_def Let_def)
  then show ?thesis
    using map_of_awardPoints [OF d, of q "scores (session st)" uid, unfolded scoreOrZero_map_of]
    by simp
qed

section \<open>Rounds of a game and the clock\<close>

lemma onNext_advance:
  "phase (session st) = Reveal \<Longrightarrow> questionIndex (session st) + 1 < int (length qs) \<Longrightarrow>
   session (onNext v qs now st) =
     (session st)\<lparr>phase := Question, questionIndex := questionIndex (session st) + 1,
                   answers := [], endsAt := Some (now + 15000)\<rparr>"
  by (cases v) (simp_all add: onNext_def nextQuestion_def session_startQuestion QUESTION_DURATION_MS_def)

lemma onNext_end:
  "phase (session st) = Reveal \<Longrightarrow> \<not> questionIndex (session st) + 1 < int (length qs) \<Longrightarrow>
   session (onNext v qs now st) = (session st)\<lparr>phase := Ended, endsAt := None\<rparr>"
  by (cases v) (simp_all add: onNext_def nextQuestion_def)

lemma onNext_noop: "phase (session st) \<noteq> Reveal \<Longrightarrow> onNext v qs now st = st"
  by (simp add: onNext_def)

lemma onAnswer_phase [simp]: "phase (session (onAnswer qs now meta n st)) = phase (session st)"
  by (simp add: onAnswer_def split: jsnum.splits)

lemma onAnswer_questionIndex [simp]:
  "questionIndex (session (onAnswer qs now meta n st)) = questionIndex (session st)"
  by (simp add: onAnswer_def split: jsnum.splits)

lemma answers_fold_phase:
  "phase (session (foldl (\<lambda>st (meta, n, t). onAnswer qs t meta n st) st subs)) = phase (session st)
   \<and> questionIndex (session (foldl (\<lambda>st (meta, n, t). onAnswer qs t meta n st) st subs))
       = questionIndex (session st)"
  by (induction subs arbitrary: st) (simp_all add: case_prod_beta)

lemma revealQuestion_phase:
  "phase (session st) = Question \<Longrightarrow>
   phase (session (revealQuestion qs now st)) = Reveal
   \<and> questionIndex (session (revealQuestion qs now st)) = questionIndex (session st)"
  by (simp add: revealQuestion_def Let_def split: option.splits)

lemma playRound_session:
  assumes "phase (session st) = Question"
  shows "(questionIndex (session st) + 1 < int (length qs) \<longrightarrow>
            phase (session (playRound v qs st r)) = Question
            \<and> questionIndex (session (playRound v qs st r)) = questionIndex (session st) + 1
            \<and> answers (session (playRound v qs st r)) = []
            \<and> endsAt (session (playRound v qs st r)) = Some (snd (snd r) + 15000))
       \<and> (\<not> questionIndex (session st) + 1 < int (length qs) \<longrightarrow>
            phase (session (playRound v qs st r)) = Ended
            \<and> endsAt (session (playRound v qs st r)) = None)"
proof -
  obtain subs tReveal tNext where r: "r = (subs, tReveal, tNext)" by (cases r)
  define st1 where "st1 = foldl (\<lambda>st (meta, n, t). onAnswer qs t meta n st) st subs"
  define st2 where "st2 = revealQuestion qs tReveal st1"
  from assms have p1: "phase (session st1) = Question" and i1: "questionIndex (session st1) = questionIndex (session st)"
    using answers_fold_phase [of qs st subs] by (simp_all add: st1_def)
  then have p2: "phase (session st2) = Reveal" and i2: "questionIndex (session st2) = questionIndex (session st)"
    using revealQuestion_phase [of st1 qs tReveal] by (simp_all add: st2_def)
  have pr: "playRound v qs st r = onNext v qs tNext st2"
    by (simp add: playRound_def r st1_def st2_def)
  show ?thesis
  proof (cases "questionIndex (session st) + 1 < int (length qs)")
    case True
    with p2 i2 show ?thesis unfolding pr using onNext_advance [of st2 qs v tNext] by (simp add: r)
  next
    case False
    with p2 i2 show ?thesis unfolding pr using onNext_end [of st2 qs v tNext] by simp
  qed
qed

lemma playRounds_progress:
  "phase (session st) = Question \<Longrightarrow>
   questionIndex (session st) + int (length rs) < int (length qs) \<Longrightarrow>
   phase (session (playRounds v qs st rs)) = Question
   \<and> questionIndex (session (playRounds v qs st rs)) = questionIndex (session st) + int (length rs)"
proof (induction rs arbitrary: st)
  case Nil
  then show ?case by (simp add: playRounds_def)
next
  case (Cons r rs)
  from Cons.prems have lt: "questionIndex (session st) + 1 < int (length qs)" by simp
  with Cons.prems(1) have p: "phase (session (playRound v qs st r)) = Question"
    and i: "questionIndex (session (playRound v qs st r)) = questionIndex (session st) + 1"
    using playRound_session [of st qs v r] by simp_all
  from Cons.prems(2) i have "questionIndex (session (playRound v qs st r)) + int (length rs) < int (length qs)"
    by simp
  from Cons.IH [OF p this] i show ?case by (simp add: playRounds_def)
qed

text \<open>Claim C6. From question 0 of a bank of N questions, after fewer than N rounds of
  reveal and \<open>next\<close> the session is in phase \<open>question\<close> at the question numbered by
  the rounds played, and after exactly N rounds it is in phase \<open>ended\<close> with the
  deadline cleared. A \<open>next\<close> frame in the reveal phase moves to the following question
  (answers cleared, deadline \<open>now + 15000\<close>) while one remains and ends the game
  otherwise; outside the reveal phase it changes nothing.\<close>

theorem full_game_ends_after_N:
  assumes "phase (session st) = Question" and "questionIndex (session st) = 0"
  shows "(length rs < length qs \<longrightarrow>
            phase (session (playRounds v qs st rs)) = Question
            \<and> questionIndex (session (playRounds v qs st rs)) = int (length rs))
       \<and> (qs \<noteq> [] \<and> length rs = length qs \<longrightarrow>
            phase (session (playRounds v qs st rs)) = Ended
            \<and> endsAt (session (playRounds v qs st rs)) = None)
       \<and> (phase (session st') = Reveal \<and> questionIndex (session st') + 1 < int (length qs) \<longrightarrow>
            session (onMessage v qs now ws meta Next st') =
              (session st')\<lparr>phase := Question, questionIndex := questionIndex (session st') + 1,
                             answers := [], endsAt := Some (now + 15000)\<rparr>)
       \<and> (phase (session st') = Reveal \<and> \<not> questionIndex (session st') + 1 < int (length qs) \<longrightarrow>
            session (onMessage v qs now ws meta Next st') =
              (session st')\<lparr>phase := Ended, endsAt := None\<rparr>)
       \<and> (phase (session st') \<noteq> Reveal \<longrightarrow> onMessage v qs now ws meta Next st' = st')"
proof (intro conjI impI)
  assume "length rs < length qs"
  with assms show "phase (session (playRounds v qs st rs)) = Question"
    and "questionIndex (session (playRounds v qs st rs)) = int (length rs)"
    using playRounds_progress [of st rs qs v] by simp_all
next
  assume a: "qs \<noteq> [] \<and> length rs = length qs"
  then have "rs \<noteq> []" by auto
  then obtain rs' r where rs: "rs = rs' @ [r]" by (metis rev_exhaust)
  with a have len: "length rs' < length qs" and last: "int (length rs') + 1 = int (length qs)" by simp_all
  from assms len have p: "phase (session (playRounds v qs st rs')) = Question"
    and i: "questionIndex (session (playRounds v qs st rs')) = int (length rs')"
    using playRounds_progress [of st rs' qs v] by simp_all
  from i last have "\<not> questionIndex (session (playRounds v qs st rs')) + 1 < int (length qs)" by simp
  with p have "phase (session (playRound v qs (playRounds v qs st rs') r)) = Ended
     \<and> endsAt (session (playRound v qs (playRounds v qs st rs') r)) = None"
    using playRound_session [of "playRounds v qs st rs'" qs v r] by blast
  then show "phase (session (playRounds v qs st rs)) = Ended"
    and "endsAt (session (playRounds v qs st rs)) = None"
    by (simp_all add: rs playRounds_def)
next
  assume "phase (session st') = Reveal \<and> questionIndex (session st') + 1 < int (length qs)"
  then show "session (onMessage v qs now ws meta Next st') =
     (session st')\<lparr>phase := Question, questionIndex := questionIndex (session st') + 1,
                    answers := [], endsAt := Some (now + 15000)\<rparr>"
    by (simp add: onNext_advance)
next
  assume "phase (session st') = Reveal \<and> \<not> questionIndex (session st') + 1 < int (length qs)"
  then show "session (onMessage v qs now ws meta Next st') = (session st')\<lparr>phase := Ended, endsAt := None\<rparr>"
    by (simp add: onNext_end)
next
  assume "phase (session st') \<noteq> Reveal"
  then show "onMessage v qs now ws meta Next st' = st'"
    by (simp add: onNext_noop)
qed

text \<open>Claim C8, as amended. A snapshot is determined by the session, the client registry,
  the viewer id and the clock reading; the clock affects only \<open>timeLeft\<close>, and not even
  that outside the question phase.\<close>

theorem deriveState_clock:
  "deriveState qs now' st viewerId =
     (deriveState qs now st viewerId)\<lparr>timeLeft := timeLeft (deriveState qs now' st viewerId)\<rparr>
   \<and> (phase (session st) \<noteq> Question \<longrightarrow>
        deriveState qs now' st viewerId = deriveState qs now st viewerId)
   \<and> (session st' = session st \<and> clients st' = clients st \<longrightarrow>
        deriveState qs now st' viewerId = deriveState qs now st viewerId)"
  by (simp add: deriveState_def Let_def split: option.splits)

section \<open>The answer-once rule\<close>

lemma answers_distinct: "distinct (map fst (answers (session (run v qs evs))))"
  using wf_run [of v qs evs] unfolding wfSession_def by blast

lemma answers_not_inherited:
  "k \<in> fst ` set (answers (session (run v qs evs))) \<Longrightarrow> \<not> inherited k"
  using wf_run [of v qs evs] unfolding wfSession_def by auto

lemma entries_of_key:
  "distinct (map fst al) \<Longrightarrow>
   length (filter (\<lambda>p. fst p = k) al) = (if k \<in> fst ` set al then 1 else 0)"
proof (induction al)
  case Nil
  then show ?case by simp
next
  case (Cons p al)
  then show ?case by (cases "fst p = k") auto
qed

lemma onAnswer_recorded:
  assumes "phase (session st) = Question" and "name meta \<noteq> []"
    and "0 \<le> oi" and "oi \<le> 3"
    and "\<not> inherited (clientId meta)"
    and "map_of (answers (session st)) (clientId meta) = None"
  shows "session (onAnswer qs now meta (JInt oi) st) =
           (session st)\<lparr>answers := AList.update (clientId meta) \<lparr>optionIndex = oi, ts = now\<rparr>
                                       (answers (session st))\<rparr>"
  using assms by (simp add: onAnswer_def truthyProp_def)

lemma onAnswer_repeat:
  "map_of (answers (session st)) (clientId meta) \<noteq> None \<Longrightarrow> onAnswer qs now meta n st = st"
  by (simp add: onAnswer_def truthyProp_def split: jsnum.splits)

lemma onAnswer_inherited:
  "inherited (clientId meta) \<Longrightarrow> onAnswer qs now meta n st = st"
  by (simp add: onAnswer_def truthyProp_def split: jsnum.splits)

lemma later_answers_ignored:
  assumes "map_of (answers (session st)) k \<noteq> None"
    and "\<forall>sub \<in> set later. clientId (fst sub) = k"
  shows "foldl (\<lambda>st (meta, n, t). onAnswer qs t meta n st) st later = st"
  using assms
proof (induction later)
  case Nil
  then show ?case by simp
next
  case (Cons sub later)
  obtain meta n t where sub: "sub = (meta, n, t)" by (cases sub)
  with Cons.prems have "clientId meta = k" by simp
  with Cons.prems(1) have "onAnswer qs t meta n st = st" by (simp add: onAnswer_repeat)
  with Cons sub show ?case by simp
qed

lemma first_answer_only:
  assumes "phase (session st) = Question" and "name meta \<noteq> []"
    and "0 \<le> oi" and "oi \<le> 3"
    and "\<not> inherited (clientId meta)"
    and "map_of (answers (session st)) (clientId meta) = None"
    and "distinct (map fst (answers (session st)))"
    and "\<forall>sub \<in> set later. clientId (fst sub) = clientId meta"
  shows "map_of (answers (session (onAnswer qs now meta (JInt oi) st))) (clientId meta)
           = Some \<lparr>optionIndex = oi, ts = now\<rparr>"
    and "length (filter (\<lambda>p. fst p = clientId meta)
                   (answers (session (onAnswer qs now meta (JInt oi) st)))) = 1"
    and "foldl (\<lambda>st (meta, n, t). onAnswer qs t meta n st)
           (onAnswer qs now meta (JInt oi) st) later = onAnswer qs now meta (JInt oi) st"
proof -
  let ?a = "\<lparr>optionIndex = oi, ts = now\<rparr>"
  let ?st1 = "onAnswer qs now meta (JInt oi) st"
  have s: "answers (session ?st1) = AList.update (clientId meta) ?a (answers (session st))"
    using assms(1-6) by (simp add: onAnswer_recorded)
  then show m: "map_of (answers (session ?st1)) (clientId meta) = Some ?a"
    by (simp add: update_conv')
  from assms(7) s have "distinct (map fst (answers (session ?st1)))"
    by (simp add: distinct_update)
  moreover from s have "clientId meta \<in> fst ` set (answers (session ?st1))"
    by (simp add: dom_update)
  ultimately show "length (filter (\<lambda>p. fst p = clientId meta) (answers (session ?st1))) = 1"
    by (simp add: entries_of_key)
  from m have "map_of (answers (session ?st1)) (clientId meta) \<noteq> None" by simp
  then show "foldl (\<lambda>st (meta, n, t). onAnswer qs t meta n st) ?st1 later = ?st1"
    using assms(8) by (rule later_answers_ignored)
qed


text \<open>The run of \<open>prototypeIdEvents\<close>, evaluated.\<close>

lemma prototype_run:
  "clients (run ServerA questions prototypeIdEvents)
     = [(1, \<lparr>clientId = ''constructor'', color = ''red'', name = ''Eve''\<rparr>)]
   \<and> session (run ServerA questions prototypeIdEvents)
     = \<lparr>phase = Question, questionIndex = 0, endsAt = Some 15002, answers = [], scores = []\<rparr>"
  by code_simp

lemma prototype_run_B:
  "clients (run ServerB questions prototypeIdEvents)
     = [(1, \<lparr>clientId = ''constructor'', color = ''red'', name = ''Eve''\<rparr>)]
   \<and> session (run ServerB questions prototypeIdEvents)
     = \<lparr>phase = Question, questionIndex = 0, endsAt = Some 15002, answers = [], scores = []\<rparr>"
  by code_simp

lemma inherited_constructor: "inherited ''constructor''"
  by (simp add: inherited_def objectPrototypeKeys_def)

lemma prototype_answer_step:
  assumes "clients (run v questions prototypeIdEvents)
     = [(1, \<lparr>clientId = ''constructor'', color = ''red'', name = ''Eve''\<rparr>)]"
  shows "run v questions (prototypeIdEvents @ [(1000, Message 1 (Answer (JInt 0)))])
     = run v questions prototypeIdEvents"
proof -
  have "run v questions (prototypeIdEvents @ [(1000, Message 1 (Answer (JInt 0)))])
      = step v questions (run v questions prototypeIdEvents) (1000, Message 1 (Answer (JInt 0)))"
    by (simp add: run_def)
  also have "\<dots> = run v questions prototypeIdEvents"
    using assms inherited_constructor by (simp add: onAnswer_inherited)
  finally show ?thesis .
qed

text \<open>Claim C2, at an identity whose id is an inherited property name. A connection
  resumes under the id \<open>constructor\<close>, sets a name and starts the quiz. Its first answer,
  sent in the question phase with a valid option index and with no answer recorded for
  it, is not recorded, in either copy of the server: the read
  \<open>session.answers['constructor']\<close> yields the inherited \<open>Object\<close> function, so the
  handler takes the identity for one that has answered. For every other identity the
  first valid answer is recorded once and the later ones change nothing
  (\<open>first_answer_only\<close>), and the keys of \<open>answers\<close> are distinct in every reachable
  state (\<open>answers_distinct\<close>).\<close>

theorem answer_of_inherited_id_dropped:
  "map_of (clients (run ServerA questions prototypeIdEvents)) 1
     = Some \<lparr>clientId = ''constructor'', color = ''red'', name = ''Eve''\<rparr>
   \<and> phase (session (run ServerA questions prototypeIdEvents)) = Question
   \<and> map_of (answers (session (run ServerA questions prototypeIdEvents))) ''constructor'' = None
   \<and> run ServerA questions (prototypeIdEvents @ [(1000, Message 1 (Answer (JInt 0)))])
       = run ServerA questions prototypeIdEvents
   \<and> answers (session (run ServerA questions (prototypeIdEvents @ [(1000, Message 1 (Answer (JInt 0)))]))) = []
   \<and> answers (session (run ServerB questions (prototypeIdEvents @ [(1000, Message 1 (Answer (JInt 0)))]))) = []"
proof -
  have a: "run ServerA questions (prototypeIdEvents @ [(1000, Message 1 (Answer (JInt 0)))])
       = run ServerA questions prototypeIdEvents"
    using prototype_run by (intro prototype_answer_step) blast
  have b: "run ServerB questions (prototypeIdEvents @ [(1000, Message 1 (Answer (JInt 0)))])
       = run ServerB questions prototypeIdEvents"
    using prototype_run_B by (intro prototype_answer_step) blast
  show ?thesis unfolding a b by (simp add: prototype_run prototype_run_B)
qed

section \<open>Example runs\<close>

lemma demo_session:
  "session (run ServerA questions demoEvents) = session (exampleServer Question)"
  by code_simp

lemma demo_clients:
  "clients (run ServerA questions demoEvents) = clients (exampleServer Question)"
  by code_simp

lemma demo_sent:
  "(1, StateMsg (deriveState questions 1000 (exampleServer Question) ''a1f09c3e77b2''))
     \<in> set (sent (run ServerA questions demoEvents))"
  by code_simp

lemma questions_length: "length questions = 10"
  by (simp add: questions_def)

lemma currentQuestion_example:
  "currentQuestion questions (session (exampleServer ph)) = Some (questions ! 0)"
  by (simp add: currentQuestion_def exampleServer_def questions_length)

lemma correct_first: "correct (questions ! 0) = 0"
  by (simp add: questions_def)

theorem deriveState_hides_correct_witness:
  "phase (session (exampleServer Question)) \<noteq> Reveal
   \<and> map_option vCorrect (sQuestion (deriveState questions 5000 (exampleServer Question) ''a1f09c3e77b2'')) = Some None
   \<and> phase (session (exampleServer Reveal)) = Reveal
   \<and> map_option vCorrect (sQuestion (deriveState questions 16000 (exampleServer Reveal) ''a1f09c3e77b2'')) = Some (Some 0)
   \<and> deriveState questions 5000 (exampleServer Question) ''a1f09c3e77b2''
       = deriveState (map (\<lambda>q. q\<lparr>correct := 3\<rparr>) questions) 5000 (exampleServer Question) ''a1f09c3e77b2''
   \<and> (1, StateMsg (deriveState questions 1000 (exampleServer Question) ''a1f09c3e77b2''))
        \<in> set (sent (run ServerA questions demoEvents))
   \<and> withholdsCorrect (deriveState questions 1000 (exampleServer Question) ''a1f09c3e77b2'')"
proof -
  have q: "phase (session (exampleServer Question)) \<noteq> Reveal"
    and r: "phase (session (exampleServer Reveal)) = Reveal"
    by (simp_all add: exampleServer_def)
  have some: "sQuestion (deriveState questions t (exampleServer ph) w) \<noteq> None" for t ph w
    by (simp add: deriveState_def Let_def currentQuestion_example)
  have hide: "map (\<lambda>q. q\<lparr>correct := 0\<rparr>) questions
      = map (\<lambda>q. q\<lparr>correct := 0\<rparr>) (map (\<lambda>q. q\<lparr>correct := 3\<rparr>) questions)"
    by simp
  note A = deriveState_hides_correct [of "exampleServer Question" questions 5000 "''a1f09c3e77b2''"
      "map (\<lambda>q. q\<lparr>correct := 3\<rparr>) questions" ServerA demoEvents]
  note B = deriveState_hides_correct [of "exampleServer Reveal" questions 16000 "''a1f09c3e77b2''" questions
      ServerA demoEvents]
  from A q some [of 5000 Question "''a1f09c3e77b2''"]
  have 1: "map_option vCorrect (sQuestion (deriveState questions 5000 (exampleServer Question) ''a1f09c3e77b2'')) = Some None"
    by auto
  from B r have 2: "map_option vCorrect (sQuestion (deriveState questions 16000 (exampleServer Reveal) ''a1f09c3e77b2'')) = Some (Some 0)"
    by (simp add: currentQuestion_example correct_first)
  from A q hide have 3: "deriveState questions 5000 (exampleServer Question) ''a1f09c3e77b2''
       = deriveState (map (\<lambda>q. q\<lparr>correct := 3\<rparr>) questions) 5000 (exampleServer Question) ''a1f09c3e77b2''"
    by blast
  from A demo_sent
  have 4: "withholdsCorrect (deriveState questions 1000 (exampleServer Question) ''a1f09c3e77b2'')"
    by fastforce
  from q r 1 2 3 4 demo_sent show ?thesis by blast
qed

theorem start_accepted_iff_witness:
  "session (onMessage ServerB questions 4 1 \<lparr>clientId = ''a1f09c3e77b2'', color = ''red'', name = ''Alice''\<rparr> Start
             (exampleServer Ended))
     = \<lparr>phase = Question, questionIndex = 0, endsAt = Some 15004, answers = [], scores = []\<rparr>
   \<and> onMessage ServerA questions 4 1 \<lparr>clientId = ''a1f09c3e77b2'', color = ''red'', name = ''''\<rparr> Start
        (exampleServer Ended) = exampleServer Ended
   \<and> onMessage ServerA questions 4 1 \<lparr>clientId = ''a1f09c3e77b2'', color = ''red'', name = ''Alice''\<rparr> Start
        (exampleServer Reveal) = exampleServer Reveal"
  using start_accepted_iff [of ServerB questions 4 1
      "\<lparr>clientId = ''a1f09c3e77b2'', color = ''red'', name = ''Alice''\<rparr>" "exampleServer Ended"]
    start_accepted_iff [of ServerA questions 4 1
      "\<lparr>clientId = ''a1f09c3e77b2'', color = ''red'', name = ''''\<rparr>" "exampleServer Ended"]
    start_accepted_iff [of ServerA questions 4 1
      "\<lparr>clientId = ''a1f09c3e77b2'', color = ''red'', name = ''Alice''\<rparr>" "exampleServer Reveal"]
  by (simp add: exampleServer_def)

theorem admin_restart_gate_witness:
  "session (onMessage ServerA questions 20000 1 \<lparr>clientId = ''a1f09c3e77b2'', color = ''red'', name = ''Alice''\<rparr>
              (AdminRestart (Some ''1234'')) (exampleServer Reveal))
     = \<lparr>phase = Question, questionIndex = 0, endsAt = Some 35000, answers = [], scores = []\<rparr>
   \<and> onMessage ServerA questions 20000 1 \<lparr>clientId = ''a1f09c3e77b2'', color = ''red'', name = ''Alice''\<rparr>
              (AdminRestart (Some ''12345'')) (exampleServer Reveal) = exampleServer Reveal
   \<and> onMessage ServerA questions 20000 1 \<lparr>clientId = ''a1f09c3e77b2'', color = ''red'', name = ''Alice''\<rparr>
              (AdminRestart None) (exampleServer Reveal) = exampleServer Reveal"
  using admin_restart_gate [of "Some ''1234''" questions 20000 1
      "\<lparr>clientId = ''a1f09c3e77b2'', color = ''red'', name = ''Alice''\<rparr>" "exampleServer Reveal"]
    admin_restart_gate [of "Some ''12345''" questions 20000 1
      "\<lparr>clientId = ''a1f09c3e77b2'', color = ''red'', name = ''Alice''\<rparr>" "exampleServer Reveal"]
    admin_restart_gate [of None questions 20000 1
      "\<lparr>clientId = ''a1f09c3e77b2'', color = ''red'', name = ''Alice''\<rparr>" "exampleServer Reveal"]
  by (simp add: ADMIN_PASSWORD_def)

theorem reveal_idempotent_witness:
  "phase (session (exampleServer Reveal)) \<noteq> Question
   \<and> revealQuestion questions 16000 (exampleServer Reveal) = exampleServer Reveal
   \<and> revealQuestion questions 17000 (revealQuestion questions 16000 (exampleServer Question))
       = revealQuestion questions 16000 (exampleServer Question)"
  using reveal_idempotent [of "exampleServer Reveal" questions 16000 17000 "[]"]
    reveal_idempotent [of "exampleServer Question" questions 16000 17000 "[]"]
  by (simp add: exampleServer_def)

theorem deadline_iff_question_witness:
  "endsAt (session (run ServerA questions demoEvents)) \<noteq> None
   \<and> phase (session (run ServerA questions demoEvents)) = Question"
  using deadline_iff_question [of ServerA questions demoEvents]
  by (simp add: demo_session exampleServer_def)

lemma second_round_session:
  "session (run ServerA questions secondRoundEvents) =
     \<lparr>phase = Question, questionIndex = 1, endsAt = Some 31000,
      answers = [(''a1f09c3e77b2'', \<lparr>optionIndex = 0, ts = 17000\<rparr>),
                 (''b2e4d5f6a7c8'', \<lparr>optionIndex = 3, ts = 18000\<rparr>)],
      scores = [(''a1f09c3e77b2'', 1), (''b2e4d5f6a7c8'', 1)]\<rparr>"
  by code_simp

lemma correct_second: "correct (questions ! Suc 0) = 0"
  by (simp add: questions_def)

text \<open>On the first question a score starts at 1. On the second, Alice goes from 1 to 2,
  Bob, who is wrong, stays at 1, and an identity that has not answered has no score.\<close>

theorem reveal_scores_witness:
  "phase (session (run ServerA questions demoEvents)) = Question
   \<and> currentQuestion questions (session (run ServerA questions demoEvents)) = Some (questions ! 0)
   \<and> map_of (scores (session (revealQuestion questions 15004 (run ServerA questions demoEvents))))
        ''a1f09c3e77b2'' = Some 1
   \<and> map_of (scores (session (revealQuestion questions 15004 (run ServerA questions demoEvents))))
        ''b2e4d5f6a7c8'' = None
   \<and> phase (session (run ServerA questions secondRoundEvents)) = Question
   \<and> currentQuestion questions (session (run ServerA questions secondRoundEvents))
        = Some (questions ! 1)
   \<and> map_of (scores (session (run ServerA questions secondRoundEvents))) ''a1f09c3e77b2'' = Some 1
   \<and> map_of (scores (session (revealQuestion questions 31000 (run ServerA questions secondRoundEvents))))
        ''a1f09c3e77b2'' = Some 2
   \<and> map_of (scores (session (revealQuestion questions 31000 (run ServerA questions secondRoundEvents))))
        ''b2e4d5f6a7c8'' = Some 1
   \<and> map_of (scores (session (revealQuestion questions 31000 (run ServerA questions secondRoundEvents))))
        ''c3d4e5f6a7b8'' = None"
proof -
  have p: "phase (session (run ServerA questions demoEvents)) = Question"
    by (simp add: demo_session exampleServer_def)
  have c: "currentQuestion questions (session (run ServerA questions demoEvents)) = Some (questions ! 0)"
    by (simp add: demo_session currentQuestion_example)
  from reveal_scores [OF refl p c, of 15004 "''a1f09c3e77b2''"]
    reveal_scores [OF refl p c, of 15004 "''b2e4d5f6a7c8''"]
  have first: "map_of (scores (session (revealQuestion questions 15004 (run ServerA questions demoEvents))))
        ''a1f09c3e77b2'' = Some 1"
    "map_of (scores (session (revealQuestion questions 15004 (run ServerA questions demoEvents))))
        ''b2e4d5f6a7c8'' = None"
    by (simp_all add: demo_session exampleServer_def correct_first)
  have p2: "phase (session (run ServerA questions secondRoundEvents)) = Question"
    by (simp add: second_round_session)
  have c2: "currentQuestion questions (session (run ServerA questions secondRoundEvents))
        = Some (questions ! 1)"
    by (simp add: second_round_session currentQuestion_def questions_length)
  have old: "map_of (scores (session (run ServerA questions secondRoundEvents))) ''a1f09c3e77b2'' = Some 1"
    by (simp add: second_round_session)
  from reveal_scores [OF refl p2 c2, of 31000 "''a1f09c3e77b2''"]
    reveal_scores [OF refl p2 c2, of 31000 "''b2e4d5f6a7c8''"]
    reveal_scores [OF refl p2 c2, of 31000 "''c3d4e5f6a7b8''"]
  have second: "map_of (scores (session (revealQuestion questions 31000 (run ServerA questions secondRoundEvents))))
        ''a1f09c3e77b2'' = Some 2"
    "map_of (scores (session (revealQuestion questions 31000 (run ServerA questions secondRoundEvents))))
        ''b2e4d5f6a7c8'' = Some 1"
    "map_of (scores (session (revealQuestion questions 31000 (run ServerA questions secondRoundEvents))))
        ''c3d4e5f6a7b8'' = None"
    by (simp_all add: second_round_session correct_second)
  from p c first p2 c2 old second show ?thesis by blast
qed

theorem full_game_ends_after_N_witness:
  "phase (session (exampleServer Question)) = Question
   \<and> questionIndex (session (exampleServer Question)) = 0
   \<and> questions \<noteq> []
   \<and> length (replicate 10 ([] :: (client \<times> jsnum \<times> int) list, 16000 :: int, 17000 :: int)) = length questions
   \<and> phase (session (playRounds ServerA questions (exampleServer Question)
                 (replicate 10 ([], 16000, 17000)))) = Ended
   \<and> endsAt (session (playRounds ServerA questions (exampleServer Question)
                 (replicate 10 ([], 16000, 17000)))) = None
   \<and> phase (session (playRounds ServerB questions (exampleServer Question)
                 (replicate 3 ([], 16000, 17000)))) = Question
   \<and> questionIndex (session (playRounds ServerB questions (exampleServer Question)
                 (replicate 3 ([], 16000, 17000)))) = 3
   \<and> onMessage ServerA questions 5000 1 \<lparr>clientId = ''a1f09c3e77b2'', color = ''red'', name = ''Alice''\<rparr> Next
        (exampleServer Question) = exampleServer Question"
proof -
  have p: "phase (session (exampleServer Question)) = Question"
    and i: "questionIndex (session (exampleServer Question)) = 0"
    by (simp_all add: exampleServer_def)
  have n: "questions \<noteq> []" using questions_length by auto
  note A = full_game_ends_after_N [OF p i, of "replicate 10 ([], 16000, 17000)" questions ServerA
      "exampleServer Question" 5000 1 "\<lparr>clientId = ''a1f09c3e77b2'', color = ''red'', name = ''Alice''\<rparr>"]
  note B = full_game_ends_after_N [OF p i, of "replicate 3 ([], 16000, 17000)" questions ServerB
      "exampleServer Question" 5000 1 "\<lparr>clientId = ''a1f09c3e77b2'', color = ''red'', name = ''Alice''\<rparr>"]
  from A B p i n show ?thesis by (simp add: questions_length)
qed

theorem counts_sum_to_total_witness:
  "counts (deriveState questions 5000 (exampleServer Question) ''a1f09c3e77b2'') = [1, 0, 0, 0]
   \<and> sum_list (counts (deriveState questions 5000 (exampleServer Question) ''a1f09c3e77b2'')) = 1
   \<and> totalAnswers (deriveState questions 5000 (exampleServer Question) ''a1f09c3e77b2'') = 1
   \<and> sum_list (counts (deriveState questions 5000 (run ServerA questions demoEvents) ''a1f09c3e77b2''))
        = int (totalAnswers (deriveState questions 5000 (run ServerA questions demoEvents) ''a1f09c3e77b2''))"
proof -
  have c: "counts (deriveState questions 5000 (exampleServer Question) ''a1f09c3e77b2'') = [1, 0, 0, 0]"
    by (simp add: calcCounts_def exampleServer_def replicate4 countAnswer_def)
  have h: "\<forall>a \<in> set (map snd (answers (session (exampleServer Question)))).
             0 \<le> optionIndex a \<and> optionIndex a \<le> 3"
    by (simp add: exampleServer_def)
  have t: "totalAnswers (deriveState questions 5000 (exampleServer Question) ''a1f09c3e77b2'') = 1"
    by (simp add: exampleServer_def)
  note A = counts_sum_to_total [of questions 5000 "exampleServer Question" "''a1f09c3e77b2''" ServerA demoEvents]
  from A h t have s: "sum_list (counts (deriveState questions 5000 (exampleServer Question) ''a1f09c3e77b2'')) = 1"
    by simp
  from A have r: "sum_list (counts (deriveState questions 5000 (run ServerA questions demoEvents) ''a1f09c3e77b2''))
        = int (totalAnswers (deriveState questions 5000 (run ServerA questions demoEvents) ''a1f09c3e77b2''))"
    by blast
  from c s t r show ?thesis by blast
qed

text \<open>Claim C8 as stated fails: two evaluations of \<open>deriveState\<close> on the same session
  and the same viewer id, a second apart during a question, differ in \<open>timeLeft\<close>.\<close>

theorem deriveState_depends_on_clock:
  "deriveState questions 5000 (exampleServer Question) ''a1f09c3e77b2''
     \<noteq> deriveState questions 6000 (exampleServer Question) ''a1f09c3e77b2''"
proof
  assume "deriveState questions 5000 (exampleServer Question) ''a1f09c3e77b2''
     = deriveState questions 6000 (exampleServer Question) ''a1f09c3e77b2''"
  then have "timeLeft (deriveState questions 5000 (exampleServer Question) ''a1f09c3e77b2'')
     = timeLeft (deriveState questions 6000 (exampleServer Question) ''a1f09c3e77b2'')"
    by simp
  then show False by (simp add: deriveState_def Let_def exampleServer_def)
qed

lemma timeLeft_example:
  "timeLeft (deriveState questions 5000 (exampleServer Question) ''a1f09c3e77b2'') = 10004
   \<and> timeLeft (deriveState questions 6000 (exampleServer Question) ''a1f09c3e77b2'') = 9004"
  by (simp add: deriveState_def Let_def exampleServer_def)

theorem deriveState_clock_witness:
  "phase (session (exampleServer Reveal)) \<noteq> Question
   \<and> deriveState questions 6000 (exampleServer Reveal) ''a1f09c3e77b2''
       = deriveState questions 5000 (exampleServer Reveal) ''a1f09c3e77b2''
   \<and> deriveState questions 6000 (exampleServer Question) ''a1f09c3e77b2''
       = (deriveState questions 5000 (exampleServer Question) ''a1f09c3e77b2'')\<lparr>timeLeft := 9004\<rparr>
   \<and> deriveState questions 5000 (run ServerA questions demoEvents) ''a1f09c3e77b2''
       = deriveState questions 5000 (exampleServer Question) ''a1f09c3e77b2''"
proof -
  have p: "phase (session (exampleServer Reveal)) \<noteq> Question"
    by (simp add: exampleServer_def)
  note A = deriveState_clock [of questions 6000 "exampleServer Reveal" "''a1f09c3e77b2''" 5000
      "exampleServer Reveal"]
  note B = deriveState_clock [of questions 6000 "exampleServer Question" "''a1f09c3e77b2''" 5000
      "run ServerA questions demoEvents"]
  from A p have 1: "deriveState questions 6000 (exampleServer Reveal) ''a1f09c3e77b2''
       = deriveState questions 5000 (exampleServer Reveal) ''a1f09c3e77b2''" by blast
  from B timeLeft_example have 2: "deriveState questions 6000 (exampleServer Question) ''a1f09c3e77b2''
       = (deriveState questions 5000 (exampleServer Question) ''a1f09c3e77b2'')\<lparr>timeLeft := 9004\<rparr>"
    by simp
  from B demo_session demo_clients
  have 3: "deriveState questions 5000 (run ServerA questions demoEvents) ''a1f09c3e77b2''
       = deriveState questions 5000 (exampleServer Question) ''a1f09c3e77b2''" by blast
  from p 1 2 3 show ?thesis by blast
qed

end
